theory Spec2Isabelle
  imports Main "HOL-Library.Multiset" "HOL-Library.Word"
begin

section \<open>Errors\<close>

text \<open>
  Go errors as the library builds them. \<open>New s\<close> is \<open>errors.New(s)\<close> (also the value of
  \<open>fmt.Errorf\<close> without a wrapped cause); \<open>Wrap cause msg\<close> is
  \<open>errors.Wrap(cause, msg)\<close> of github.com/pkg/errors, whose text is the message,
  a colon and a blank, and the text of the cause.
\<close>

datatype go_error = New string | Wrap go_error string

fun Error :: "go_error \<Rightarrow> string" where
  "Error (New s) = s"
| "Error (Wrap cause msg) = msg @ '': '' @ Error cause"

fun Cause :: "go_error \<Rightarrow> go_error" where
  "Cause (New s) = New s"
| "Cause (Wrap cause msg) = Cause cause"

text \<open>
  A panic is not an error value: it unwinds the caller. \<open>ValueError m k\<close> is the
  \<open>*reflect.ValueError\<close> that package reflect raises when method \<open>m\<close> is called on a
  Value of kind \<open>k\<close> that it does not accept; \<open>TypeAssertion\<close> is the panic of an
  unchecked type assertion \<open>x.(T)\<close>; \<open>IndexOutOfRange\<close> that of an index past the end;
  \<open>Message s\<close> is a panic with the text \<open>s\<close>.
  A function that can stop either way returns \<open>failure + 'a\<close>.
\<close>

datatype kind = KInvalid | KBool | KInt | KString | KStruct | KSlice | KPtr | KInterface

datatype panic = ValueError string kind | Message string | TypeAssertion | IndexOutOfRange

datatype failure = Panic panic | Failed go_error

text \<open>Decimal printing of a non-negative \<open>int\<close> index, as \<open>%v\<close> prints it.\<close>

definition digit_char :: "nat \<Rightarrow> char" where
  "digit_char d = ''0123456789'' ! d"

function itoa :: "nat \<Rightarrow> string" where
  "itoa n = (if n < 10 then [digit_char n] else itoa (n div 10) @ [digit_char (n mod 10)])"
  by pat_completeness auto
termination
  by (relation "measure id") auto

declare itoa.simps [simp del]

section \<open>Sequence operations (collection.go, higher-order-function-util.go)\<close>

subsection \<open>Distinct and DistinctFunc\<close>

text \<open>
  \<open>seen\<close> is a Go \<open>map[T]bool\<close>; reading a key that is absent gives \<open>false\<close>.
  The loop appends to \<open>unique\<close>, so the accumulator grows at its end.
\<close>

definition seen_get :: "('a \<rightharpoonup> bool) \<Rightarrow> 'a \<Rightarrow> bool" where
  "seen_get seen item = (case seen item of None \<Rightarrow> False | Some b \<Rightarrow> b)"

fun Distinct_loop :: "('a \<rightharpoonup> bool) \<Rightarrow> 'a list \<Rightarrow> 'a list \<Rightarrow> 'a list" where
  "Distinct_loop seen unique [] = unique"
| "Distinct_loop seen unique (item # rest) =
     (if \<not> seen_get seen item
      then Distinct_loop (seen(item \<mapsto> True)) (unique @ [item]) rest
      else Distinct_loop seen unique rest)"

definition Distinct :: "'a list \<Rightarrow> 'a list" where
  "Distinct sl = Distinct_loop Map.empty [] sl"

text \<open>
  \<open>DistinctFunc\<close> receives \<open>compareFunc\<close> and runs the same loop as \<open>Distinct\<close>; the
  body never calls \<open>compareFunc\<close>.
\<close>

fun DistinctFunc_loop ::
  "('a \<Rightarrow> 'a \<Rightarrow> bool) \<Rightarrow> ('a \<rightharpoonup> bool) \<Rightarrow> 'a list \<Rightarrow> 'a list \<Rightarrow> 'a list" where
  "DistinctFunc_loop compareFunc seen unique [] = unique"
| "DistinctFunc_loop compareFunc seen unique (item # rest) =
     (if \<not> seen_get seen item
      then DistinctFunc_loop compareFunc (seen(item \<mapsto> True)) (unique @ [item]) rest
      else DistinctFunc_loop compareFunc seen unique rest)"

definition DistinctFunc :: "'a list \<Rightarrow> ('a \<Rightarrow> 'a \<Rightarrow> bool) \<Rightarrow> 'a list" where
  "DistinctFunc sl compareFunc = DistinctFunc_loop compareFunc Map.empty [] sl"

text \<open>
  The deduplication the specification asks of the comparator variant, written from its
  words: the first occurrence is kept, and a later element is dropped when the comparator
  judges it equal to an element already kept.
\<close>

fun distinctBy_spec_loop :: "('a \<Rightarrow> 'a \<Rightarrow> bool) \<Rightarrow> 'a list \<Rightarrow> 'a list \<Rightarrow> 'a list" where
  "distinctBy_spec_loop eq kept [] = kept"
| "distinctBy_spec_loop eq kept (x # xs) =
     (if list_ex (\<lambda>k. eq k x) kept then distinctBy_spec_loop eq kept xs
      else distinctBy_spec_loop eq (kept @ [x]) xs)"

definition distinctBy_spec :: "'a list \<Rightarrow> ('a \<Rightarrow> 'a \<Rightarrow> bool) \<Rightarrow> 'a list" where
  "distinctBy_spec xs eq = distinctBy_spec_loop eq [] xs"

subsection \<open>MapReturnWithError\<close>

text \<open>
  \<open>mappingFunc\<close> returns the Go pair \<open>(T2, error)\<close>; the error is \<open>None\<close> for \<open>nil\<close>.
  The result \<open>Inl e\<close> stands for the Go pair \<open>(nil, e)\<close>: no slice comes back with an error.
\<close>

definition index_message :: "nat \<Rightarrow> string" where
  "index_message idx =
     ''error mapping at index:'' @ [CHR 0x27] @ itoa idx @ [CHR 0x27] @ '', error''"

fun MapReturnWithError_loop ::
  "('a \<Rightarrow> 'b \<times> go_error option) \<Rightarrow> nat \<Rightarrow> 'b list \<Rightarrow> 'a list \<Rightarrow> go_error + 'b list" where
  "MapReturnWithError_loop mappingFunc idx result [] = Inr result"
| "MapReturnWithError_loop mappingFunc idx result (item # rest) =
     (case mappingFunc item of
        (res, Some err) \<Rightarrow> Inl (Wrap err (index_message idx))
      | (res, None) \<Rightarrow> MapReturnWithError_loop mappingFunc (idx + 1) (result @ [res]) rest)"

definition MapReturnWithError ::
  "'a list \<Rightarrow> ('a \<Rightarrow> 'b \<times> go_error option) \<Rightarrow> go_error + 'b list" where
  "MapReturnWithError source mappingFunc = MapReturnWithError_loop mappingFunc 0 [] source"

section \<open>Reflection (reflection.go, grouping.go, higher-order-function-util.go)\<close>

text \<open>
  The Go values that \<open>GetField\<close> walks through. \<open>VStruct\<close> lists the fields of a struct
  with their names (structs without embedded fields), \<open>VPtr None\<close> is a nil pointer,
  \<open>VIface v\<close> an interface value holding \<open>v\<close>, as the elements of a \<open>[]interface{}\<close>
  are. \<open>VBool\<close>, \<open>VInt\<close> and \<open>VString\<close> stand for the kinds that are neither struct,
  slice, pointer nor interface. \<open>Invalid\<close> is what the zero \<open>reflect.Value\<close> holds: no
  value at all. The model is untyped: it also has slices whose elements differ in type,
  which Go's slices cannot hold.
\<close>

datatype rvalue =
    Invalid
  | VBool bool
  | VInt int
  | VString string
  | VStruct "(string \<times> rvalue) list"
  | VSlice "rvalue list"
  | VPtr "rvalue option"
  | VIface rvalue

fun kind_of :: "rvalue \<Rightarrow> kind" where
  "kind_of Invalid = KInvalid"
| "kind_of (VBool b) = KBool"
| "kind_of (VInt i) = KInt"
| "kind_of (VString s) = KString"
| "kind_of (VStruct fs) = KStruct"
| "kind_of (VSlice xs) = KSlice"
| "kind_of (VPtr p) = KPtr"
| "kind_of (VIface v) = KInterface"

text \<open>
  A \<open>reflect.Value\<close> is a handle on such a value together with its flags. The one flag
  that \<open>GetField\<close> and its callers can observe is \<open>flagRO\<close>: it is set on a Value that
  was reached through an unexported struct field, \<open>Elem\<close> and \<open>Index\<close> hand it on, and
  \<open>Interface\<close> refuses such a Value. \<open>ValueOf\<close> gives a Value with the flag clear, and
  the zero Value has no flag.
\<close>

datatype Value = Value (held: rvalue) (flagRO: bool)

definition ValueOf :: "rvalue \<Rightarrow> Value" where
  "ValueOf x = Value x False"

definition Kind :: "Value \<Rightarrow> kind" where
  "Kind v = kind_of (held v)"

definition IsValid :: "Value \<Rightarrow> bool" where
  "IsValid v = (held v \<noteq> Invalid)"

text \<open>
  A field name is exported when it begins with an upper-case letter (the names here are
  ASCII).
\<close>

definition IsExported :: "string \<Rightarrow> bool" where
  "IsExported name =
     (case name of [] \<Rightarrow> False | c # cs \<Rightarrow> c \<in> set ''ABCDEFGHIJKLMNOPQRSTUVWXYZ'')"

fun Split_dot :: "string \<Rightarrow> string list" where
  "Split_dot [] = [[]]"
| "Split_dot (c # cs) =
     (if c = CHR ''.'' then [] # Split_dot cs
      else (case Split_dot cs of [] \<Rightarrow> [[c]] | w # ws \<Rightarrow> (c # w) # ws))"

text \<open>
  \<open>Elem\<close> of a pointer: the zero Value for a nil pointer, the pointee otherwise.
  \<open>GetField\<close> calls it on pointers only.
\<close>

fun Elem :: "Value \<Rightarrow> Value" where
  "Elem (Value (VPtr (Some x)) ro) = Value x ro"
| "Elem v = Value Invalid False"

fun FieldByName :: "Value \<Rightarrow> string \<Rightarrow> failure + Value" where
  "FieldByName (Value (VStruct fs) ro) name =
     (case map_of fs name of
        None \<Rightarrow> Inr (Value Invalid False)
      | Some x \<Rightarrow> Inr (Value x (ro \<or> \<not> IsExported name)))"
| "FieldByName (Value x ro) name =
     Inl (Panic (ValueError ''reflect.Value.FieldByName'' (kind_of x)))"

text \<open>
  \<open>Interface\<close> gives the value back as an \<open>interface{}\<close>: the value held, and for a
  Value of kind Interface the value inside that interface. It panics on the zero Value and
  on a Value with \<open>flagRO\<close>.
\<close>

fun Interface :: "Value \<Rightarrow> failure + rvalue" where
  "Interface (Value x ro) =
     (if x = Invalid then Inl (Panic (ValueError ''reflect.Value.Interface'' KInvalid))
      else if ro then Inl (Panic (Message
        ''reflect.Value.Interface: cannot return value obtained from unexported field or method''))
      else Inr (case x of VIface w \<Rightarrow> w | _ \<Rightarrow> x))"

text \<open>The elements \<open>element.Index(i)\<close> for \<open>i\<close> below \<open>element.Len()\<close>, on a slice.\<close>

fun elements :: "rvalue \<Rightarrow> rvalue list" where
  "elements (VSlice xs) = xs"
| "elements x = []"

definition Index_all :: "Value \<Rightarrow> Value list" where
  "Index_all v = map (\<lambda>x. Value x (flagRO v)) (elements (held v))"

text \<open>
  The first loop of the slice branch: the results of the recursive calls in order, the
  valid ones appended to \<open>subElements\<close>; a call that panics ends the loop.
\<close>

fun collect_valid :: "(failure + Value) list \<Rightarrow> Value list \<Rightarrow> failure + Value list" where
  "collect_valid [] subElements = Inr subElements"
| "collect_valid (Inl p # rs) subElements = Inl p"
| "collect_valid (Inr subElem # rs) subElements =
     collect_valid rs (if IsValid subElem then subElements @ [subElem] else subElements)"

text \<open>The second loop: \<open>result[i] = v.Interface()\<close> for each of \<open>subElements\<close>.\<close>

fun Interface_all :: "Value list \<Rightarrow> failure + rvalue list" where
  "Interface_all [] = Inr []"
| "Interface_all (v # vs) =
     (case Interface v of
        Inl p \<Rightarrow> Inl p
      | Inr x \<Rightarrow> (case Interface_all vs of Inl p \<Rightarrow> Inl p | Inr xs \<Rightarrow> Inr (x # xs)))"

lemma size_Elem: "size (held (Elem e)) \<le> size (held e)"
  by (cases e rule: Elem.cases) simp_all

lemma size_deref: "size (held (if Kind e = KPtr then Elem e else e)) \<le> size (held e)"
  by (simp add: size_Elem)

lemma size_map_of:
  "map_of fs name = Some v \<Longrightarrow> size v < Suc (size_list (size_prod (\<lambda>_. 0) size) fs)"
  by (induction fs) (auto split: if_splits)

lemma size_FieldByName: "FieldByName e name = Inr b \<Longrightarrow> size (held b) \<le> size (held e)"
  by (cases "(e, name)" rule: FieldByName.cases)
    (auto split: option.splits dest: size_map_of [THEN less_imp_le])

lemma size_elements: "x \<in> set (elements e) \<Longrightarrow> size x < size e"
proof (cases e)
  case (VSlice xs)
  assume "x \<in> set (elements e)"
  with VSlice have "x \<in> set xs" by simp
  then have "size x < Suc (size_list size xs)" by (induction xs) auto
  with VSlice show ?thesis by simp
qed simp_all

lemma size_Index_all: "x \<in> set (Index_all e) \<Longrightarrow> size (held x) < size (held e)"
  by (auto simp: Index_all_def size_elements)

text \<open>
  \<open>GetField\<close> splits the path and runs the loop over the names, here \<open>GetField_names\<close>.
  On a slice the loop calls \<open>GetField\<close> on each element with the current name alone,
  and returns the \<open>[]interface{}\<close> of the valid results.
\<close>

function GetField :: "Value \<Rightarrow> string \<Rightarrow> failure + Value"
  and GetField_names :: "Value \<Rightarrow> string list \<Rightarrow> failure + Value" where
  "GetField element fieldName = GetField_names element (Split_dot fieldName)"
| "GetField_names element [] = Inr element"
| "GetField_names element (name # names) =
     (let element = (if Kind element = KPtr then Elem element else element) in
      if Kind element = KSlice then
        (case collect_valid (map (\<lambda>x. GetField x name) (Index_all element)) [] of
           Inl p \<Rightarrow> Inl p
         | Inr subElements \<Rightarrow>
             (case Interface_all subElements of
                Inl p \<Rightarrow> Inl p
              | Inr result \<Rightarrow> Inr (ValueOf (VSlice (map VIface result)))))
      else
        (case FieldByName element name of
           Inl p \<Rightarrow> Inl p
         | Inr v \<Rightarrow> GetField_names v names))"
  by pat_completeness auto
termination
proof (relation "inv_image (less_than <*lex*> less_than <*lex*> less_than)
    (\<lambda>a. case a of Inl (e, f) \<Rightarrow> (size (held e), 1 :: nat, 0 :: nat)
                     | Inr (e, ns) \<Rightarrow> (size (held e), 0, length ns))", goal_cases)
  case 1
  show ?case by auto
next
  case (2 element fieldName)
  show ?case by simp
next
  case (3 element name names el x)
  then have "size (held x) < size (held el)" by (simp add: size_Index_all)
  also have "size (held el) \<le> size (held element)" using 3 size_deref [of element] by simp
  finally show ?case by simp
next
  case (4 element name names el v)
  then have "size (held v) \<le> size (held el)" by (simp add: size_FieldByName)
  also have "size (held el) \<le> size (held element)" using 4 size_deref [of element] by simp
  finally show ?case by auto
qed

text \<open>
  The field resolver of the specification (section 4.1), written from its words: a nil
  reference fails the branch; a pointer is dereferenced; on a Sequence the remaining
  segments, the current one included, are resolved against each element, the elements
  that fail are left out, and the Sequence of the results is the answer; otherwise the
  segment is looked up as a field, and NotFound (\<open>None\<close>) is the answer when it does not
  exist.
\<close>

fun pointee :: "rvalue \<Rightarrow> rvalue" where
  "pointee (VPtr (Some x)) = x"
| "pointee x = x"

fun field :: "rvalue \<Rightarrow> string \<Rightarrow> rvalue option" where
  "field (VStruct fs) segment = map_of fs segment"
| "field x segment = None"

lemma size_pointee: "size (pointee x) \<le> size x"
  by (cases x rule: pointee.cases) simp_all

lemma size_field: "field x segment = Some w \<Longrightarrow> size w \<le> size x"
  by (cases x) (auto dest: size_map_of [THEN less_imp_le])

function resolve_spec :: "rvalue \<Rightarrow> string list \<Rightarrow> rvalue option" where
  "resolve_spec current [] = Some current"
| "resolve_spec current (segment # remaining) =
     (if current = VPtr None then None
      else
        let current = pointee current in
        if kind_of current = KSlice then
          Some (VSlice (concat (map
            (\<lambda>x. case resolve_spec x (segment # remaining) of None \<Rightarrow> [] | Some r \<Rightarrow> [r])
            (elements current))))
        else
          (case field current segment of
             None \<Rightarrow> None
           | Some w \<Rightarrow> resolve_spec w remaining))"
  by pat_completeness auto
termination
proof (relation "inv_image (less_than <*lex*> less_than) (\<lambda>(e, ns). (size e, length ns))",
    goal_cases)
  case 1
  show ?case by auto
next
  case (2 current segment remaining cur x)
  then have "size x < size cur" by (simp add: size_elements)
  also have "size cur \<le> size current" using 2 size_pointee [of current] by simp
  finally show ?case by simp
next
  case (3 current segment remaining cur w)
  then have "size w \<le> size cur" by (simp add: size_field)
  also have "size cur \<le> size current" using 3 size_pointee [of current] by simp
  finally show ?case by auto
qed

subsection \<open>GroupBy and GroupBy1By1\<close>

text \<open>
  The slice \<open>[]V\<close> is given by its elements; \<open>sliceValue.Index(i)\<close> is a Value on the
  element with no flag, and \<open>element.Interface().(V)\<close> gives the element back. The guard
  on \<open>sliceValue.Kind()\<close> never fires, a \<open>[]V\<close> being a slice. \<open>asK\<close> is the type
  assertion \<open>.(K)\<close> for the key type the caller chose, applied to
  \<open>fieldValue.Interface()\<close>: \<open>None\<close> when the dynamic type is not \<open>K\<close>, and the
  unchecked assertion then panics. \<open>append(result[key], element)\<close> reads the empty slice
  for a key that is absent.
\<close>

definition map_get_list :: "('k \<rightharpoonup> 'v list) \<Rightarrow> 'k \<Rightarrow> 'v list" where
  "map_get_list m key = (case m key of None \<Rightarrow> [] | Some vs \<Rightarrow> vs)"

fun GroupBy_loop ::
  "(rvalue \<Rightarrow> 'k option) \<Rightarrow> string \<Rightarrow> ('k \<rightharpoonup> rvalue list) \<Rightarrow> rvalue list
     \<Rightarrow> failure + ('k \<rightharpoonup> rvalue list)" where
  "GroupBy_loop asK fieldName result [] = Inr result"
| "GroupBy_loop asK fieldName result (element # rest) =
     (case GetField (ValueOf element) fieldName of
        Inl p \<Rightarrow> Inl p
      | Inr fieldValue \<Rightarrow>
          if \<not> IsValid fieldValue
          then Inl (Failed (New (''groupBy: field '' @ fieldName @ '' does not exist'')))
          else
            (case Interface fieldValue of
               Inl p \<Rightarrow> Inl p
             | Inr i \<Rightarrow>
                 (case asK i of
                    None \<Rightarrow> Inl (Panic TypeAssertion)
                  | Some key \<Rightarrow>
                      GroupBy_loop asK fieldName
                        (result(key \<mapsto> map_get_list result key @ [element])) rest)))"

definition GroupBy ::
  "(rvalue \<Rightarrow> 'k option) \<Rightarrow> rvalue list \<Rightarrow> string \<Rightarrow> failure + ('k \<rightharpoonup> rvalue list)" where
  "GroupBy asK sl fieldName = GroupBy_loop asK fieldName Map.empty sl"




subsection \<open>Test data of the repository\<close>

text \<open>\<open>assert_int\<close> is the type assertion to \<open>int\<close>; \<open>Person\<close> the struct of the tests.\<close>

definition assert_int :: "rvalue \<Rightarrow> int option" where
  "assert_int v = (case v of VInt i \<Rightarrow> Some i | _ \<Rightarrow> None)"

definition Person :: "string \<Rightarrow> int \<Rightarrow> rvalue" where
  "Person name age = VStruct [(''Name'', VString name), (''Age'', VInt age)]"

section \<open>Distinct: what the loop computes\<close>

lemma DistinctFunc_loop_eq:
  "DistinctFunc_loop compareFunc seen unique sl = Distinct_loop seen unique sl"
  by (induction sl arbitrary: seen unique) simp_all

text \<open>
  C10. For every slice and any two comparators, \<open>DistinctFunc\<close> gives the same result,
  and that result is the one \<open>Distinct\<close> gives: the output does not depend on the
  comparator supplied.
\<close>

theorem DistinctFunc_independent_of_comparator:
  "DistinctFunc sl eq1 = DistinctFunc sl eq2 \<and> DistinctFunc sl eq1 = Distinct sl"
  by (simp add: DistinctFunc_def Distinct_def DistinctFunc_loop_eq)

text \<open>
  C1. The claim asks that \<open>DistinctFunc\<close> compares pairwise with the caller's
  comparator. On \<open>[1, 2, 3]\<close> with "same parity" as the comparator the code keeps all
  three elements, although the comparator judges 3 equal to the kept 1; the pairwise
  deduplication of the specification gives \<open>[1, 2]\<close>.
\<close>

theorem DistinctFunc_keeps_comparator_equal_element:
  "DistinctFunc [1, 2, 3 :: int] (\<lambda>a b. a mod 2 = b mod 2) = [1, 2, 3]
   \<and> distinctBy_spec [1, 2, 3 :: int] (\<lambda>a b. a mod 2 = b mod 2) = [1, 2]"
  by (simp add: DistinctFunc_def distinctBy_spec_def seen_get_def)

section \<open>MapReturnWithError\<close>

lemma MapReturnWithError_loop_all_ok:
  "\<forall>x \<in> set source. snd (f x) = None \<Longrightarrow>
   MapReturnWithError_loop f idx result source = Inr (result @ map (\<lambda>x. fst (f x)) source)"
proof (induction source arbitrary: idx result)
  case Nil
  show ?case by simp
next
  case (Cons item rest)
  from Cons.prems have "snd (f item) = None" by simp
  then obtain res where r: "f item = (res, None)" by (cases "f item") simp
  from Cons.prems have "\<forall>x \<in> set rest. snd (f x) = None" by simp
  then have "MapReturnWithError_loop f (idx + 1) (result @ [res]) rest
      = Inr ((result @ [res]) @ map (\<lambda>x. fst (f x)) rest)"
    by (rule Cons.IH)
  with r show ?case by simp
qed

lemma MapReturnWithError_loop_first_failure:
  "\<forall>y \<in> set pre. snd (f y) = None \<Longrightarrow> snd (f x) = Some cause \<Longrightarrow>
   MapReturnWithError_loop f idx result (pre @ x # post)
     = Inl (Wrap cause (index_message (idx + length pre)))"
proof (induction pre arbitrary: idx result)
  case Nil
  then obtain res where "f x = (res, Some cause)" by (cases "f x") simp
  then show ?case by simp
next
  case (Cons item rest)
  from Cons.prems have "snd (f item) = None" by simp
  then obtain res where r: "f item = (res, None)" by (cases "f item") simp
  from Cons.prems have "\<forall>y \<in> set rest. snd (f y) = None" by simp
  then have "MapReturnWithError_loop f (idx + 1) (result @ [res]) (rest @ x # post)
      = Inl (Wrap cause (index_message (idx + 1 + length rest)))"
    using Cons.prems(2) by (rule Cons.IH)
  with r show ?case by simp
qed

text \<open>
  C7. \<open>MapReturnWithError\<close> maps the elements in order. When no element fails, the
  result is the whole mapped sequence. When \<open>x\<close> is the first element that fails, after
  the elements \<open>pre\<close> that succeed, the result is an error and no sequence, whatever
  follows \<open>x\<close>: the error wraps the cause returned for \<open>x\<close>, and its message carries the
  zero-based index of \<open>x\<close>, which is the length of \<open>pre\<close>.
\<close>

theorem MapReturnWithError_first_failure_or_all:
  "((\<forall>x \<in> set source. snd (f x) = None) \<longrightarrow>
      MapReturnWithError source f = Inr (map (\<lambda>x. fst (f x)) source))
   \<and> ((\<forall>y \<in> set pre. snd (f y) = None) \<and> snd (f x) = Some cause \<longrightarrow>
      MapReturnWithError (pre @ x # post) f
        = Inl (Wrap cause (''error mapping at index:'' @ [CHR 0x27] @ itoa (length pre)
                             @ [CHR 0x27] @ '', error'')))"
  using MapReturnWithError_loop_all_ok [of source f 0 "[]"]
    MapReturnWithError_loop_first_failure [of pre f x cause 0 "[]" post]
  by (simp add: MapReturnWithError_def index_message_def)

theorem MapReturnWithError_first_failure_or_all_witness:
  "MapReturnWithError [1, 2, 4 :: int]
        (\<lambda>d. if d = 3 then (0, Some (New ''fake error for 3'')) else (d * 2 :: int, None))
       = Inr [2, 4, 8]
   \<and> (case MapReturnWithError ([1, 2] @ 3 # [4, 5 :: int])
        (\<lambda>d. if d = 3 then (0, Some (New ''fake error for 3'')) else (d * 2 :: int, None)) of
        Inl e \<Rightarrow> Error e = ''error mapping at index:'' @ [CHR 0x27] @ ''2'' @ [CHR 0x27]
                               @ '', error: fake error for 3''
      | Inr r \<Rightarrow> False)"
  using MapReturnWithError_first_failure_or_all
    [of "[1, 2, 4 :: int]"
        "\<lambda>d. if d = 3 then (0, Some (New ''fake error for 3'')) else (d * 2 :: int, None)"
        "[1, 2 :: int]" 3 "New ''fake error for 3''" "[4, 5]"]
  by (simp add: itoa.simps digit_char_def)

section \<open>GetField\<close>

text \<open>
  C3. The claim asks that, on a Sequence met in the middle of a path, all the remaining
  segments are resolved against each element. For a record whose \<open>Items\<close> is a slice of
  records with a \<open>Detail\<close> record holding \<open>Code = 7\<close>, the path \<open>Items.Detail.Code\<close>
  gives the slice of the \<open>Detail\<close> records: the recursive call receives the one segment
  \<open>Detail\<close> and the loop returns, so \<open>Code\<close> is never looked up. The resolver of the
  specification gives the slice of the codes.
\<close>

theorem GetField_broadcast_discards_trailing_segment:
  "GetField
      (ValueOf (VStruct [(''Items'', VSlice [VStruct [(''Detail'', VStruct [(''Code'', VInt 7)])]])]))
      ''Items.Detail.Code''
     = Inr (ValueOf (VSlice [VIface (VStruct [(''Code'', VInt 7)])]))
   \<and> resolve_spec
       (VStruct [(''Items'', VSlice [VStruct [(''Detail'', VStruct [(''Code'', VInt 7)])]])])
       (Split_dot ''Items.Detail.Code'')
     = Some (VSlice [VInt 7])"
  by (simp add: ValueOf_def Kind_def IsValid_def IsExported_def Index_all_def)

text \<open>
  C5. The claim asks that a missing segment followed by further segments gives NotFound
  and never crashes. On a \<open>Person\<close> the path \<open>Missing.Sub\<close> panics: \<open>FieldByName\<close> returns
  the zero Value for \<open>Missing\<close>, and the next turn of the loop calls \<open>FieldByName\<close> on that
  zero Value. \<open>GroupBy\<close> panics with it, although for the path \<open>Missing\<close> alone it returns
  its "does not exist" error.
\<close>

theorem GetField_missing_segment_then_segment_panics:
  "GetField (ValueOf (Person ''Alice'' 30)) ''Missing.Sub''
     = Inl (Panic (ValueError ''reflect.Value.FieldByName'' KInvalid))
   \<and> GroupBy assert_int [Person ''Alice'' 30] ''Missing.Sub''
     = Inl (Panic (ValueError ''reflect.Value.FieldByName'' KInvalid))
   \<and> GroupBy assert_int [Person ''Alice'' 30] ''Missing''
     = Inl (Failed (New ''groupBy: field Missing does not exist''))"
  by (simp add: Person_def GroupBy_def ValueOf_def Kind_def IsValid_def)

text \<open>
  C9. The claim asks that an element of the Sequence for which the segment does not
  resolve is left out of the result, and that its failure is not the failure of the whole
  resolution. The loop has that guard for a result that is the zero Value: on a slice of
  \<open>Person\<close> pointers the path \<open>Staff.Salary\<close> gives the empty slice. But on the slice
  \<open>[nil, &Person{Bob, 31}]\<close> the path \<open>Staff.Name\<close> panics: for the nil pointer \<open>Elem\<close>
  gives the zero Value and the recursive call runs \<open>FieldByName\<close> on it, before the guard
  is reached. The resolver of the specification leaves the nil element out and gives the
  slice holding Bob's name.
\<close>

theorem GetField_broadcast_nil_element_panics:
  "GetField
      (ValueOf (VStruct [(''Staff'', VSlice [VPtr None, VPtr (Some (Person ''Bob'' 31))])]))
      ''Staff.Name''
     = Inl (Panic (ValueError ''reflect.Value.FieldByName'' KInvalid))
   \<and> resolve_spec
       (VStruct [(''Staff'', VSlice [VPtr None, VPtr (Some (Person ''Bob'' 31))])])
       (Split_dot ''Staff.Name'')
     = Some (VSlice [VString ''Bob''])
   \<and> GetField
      (ValueOf (VStruct [(''Staff'',
         VSlice [VPtr (Some (Person ''Alice'' 30)), VPtr (Some (Person ''Bob'' 31))])]))
      ''Staff.Salary''
     = Inr (ValueOf (VSlice []))"
  by (simp add: Person_def ValueOf_def Kind_def IsValid_def IsExported_def Index_all_def)


section \<open>GroupBy1By1\<close>










end
